theory Spec2Isabelle
  imports Main "HOL-Library.Sublist" "HOL-Library.AList" "HOL-Library.Multiset"
begin

section \<open>Library functions used by the server\<close>

text \<open>
  The server is one Go file (\<^verbatim>\<open>main.go\<close>). Go strings are byte sequences, modelled as
  \<^typ>\<open>string\<close>. The functions of this section are the standard-library functions the
  file calls, on a Unix system (separator \<^verbatim>\<open>/\<close>, no volume names).
\<close>

subsection \<open>Package strings\<close>

definition HasPrefix :: "string \<Rightarrow> string \<Rightarrow> bool" where
  "HasPrefix s pre = (length pre \<le> length s \<and> take (length pre) s = pre)"

definition HasSuffix :: "string \<Rightarrow> string \<Rightarrow> bool" where
  "HasSuffix s suf = (length suf \<le> length s \<and> drop (length s - length suf) s = suf)"

text \<open>\<^verbatim>\<open>strings.Split(s, sep)\<close> for a one-byte separator: the empty string splits into
  one empty piece.\<close>

fun Split :: "string \<Rightarrow> char \<Rightarrow> string list" where
  "Split [] c = [[]]"
| "Split (x # xs) c =
     (if x = c then [] # Split xs c
      else (case Split xs c of [] \<Rightarrow> [[x]] | s # ss \<Rightarrow> (x # s) # ss))"

fun StringsJoin :: "string list \<Rightarrow> string \<Rightarrow> string" where
  "StringsJoin [] sep = []"
| "StringsJoin [x] sep = x"
| "StringsJoin (x # y # ys) sep = x @ sep @ StringsJoin (y # ys) sep"

subsection \<open>Package strconv\<close>

text \<open>\<^verbatim>\<open>strconv.Itoa\<close> on the non-negative counter of the upload loop. The counter is a
  64-bit \<^verbatim>\<open>int\<close> in Go; it counts existing files, so it is modelled as a natural number.\<close>

fun Itoa :: "nat \<Rightarrow> string" where
  "Itoa n = (if n < 10 then [''0123456789'' ! n]
             else Itoa (n div 10) @ [''0123456789'' ! (n mod 10)])"

declare Itoa.simps [simp del]

subsection \<open>Package path/filepath\<close>

text \<open>
  \<^verbatim>\<open>filepath.Clean\<close> reads the path element by element and keeps the elements written
  so far. An empty element and \<^verbatim>\<open>.\<close> are dropped; \<^verbatim>\<open>..\<close> removes the last
  element written unless that is itself \<^verbatim>\<open>..\<close> or nothing is written, in which case a
  rooted path drops it and a relative path writes it. \<open>cleanStep\<close> is one such step on the
  elements written, last one first.
\<close>

definition cleanStep :: "bool \<Rightarrow> string list \<Rightarrow> string \<Rightarrow> string list" where
  "cleanStep rooted out e =
     (if e = [] \<or> e = ''.'' then out
      else if e = ''..'' then
        (case out of
           [] \<Rightarrow> if rooted then [] else [''..'']
         | t # ts \<Rightarrow> if t = ''..'' then (if rooted then out else ''..'' # out) else ts)
      else e # out)"

definition isRooted :: "string \<Rightarrow> bool" where
  "isRooted p = (p \<noteq> [] \<and> hd p = CHR ''/'')"

definition elements :: "string \<Rightarrow> string list" where
  "elements p = rev (foldl (cleanStep (isRooted p)) [] (Split p CHR ''/''))"

definition Clean :: "string \<Rightarrow> string" where
  "Clean p =
     (if p = [] then ''.''
      else if isRooted p then CHR ''/'' # StringsJoin (elements p) ''/''
      else if elements p = [] then ''.''
      else StringsJoin (elements p) ''/'')"

text \<open>\<^verbatim>\<open>filepath.Join\<close>: empty leading elements are ignored, the rest is joined with the
  separator and cleaned; with nothing left the result is the empty string.\<close>

definition Join :: "string list \<Rightarrow> string" where
  "Join elem =
     (case dropWhile (\<lambda>e. e = []) elem of
        [] \<Rightarrow> []
      | es \<Rightarrow> Clean (StringsJoin es ''/''))"

text \<open>\<^verbatim>\<open>filepath.Ext\<close>: the suffix from the last dot of the last element, or empty.\<close>

definition Ext :: "string \<Rightarrow> string" where
  "Ext p =
     (let lastElem = takeWhile (\<lambda>c. c \<noteq> CHR ''/'') (rev p)
      in if CHR ''.'' \<in> set lastElem
         then CHR ''.'' # rev (takeWhile (\<lambda>c. c \<noteq> CHR ''.'') lastElem)
         else [])"

text \<open>\<^verbatim>\<open>filepath.Base\<close>: the last element, after trailing separators are removed.\<close>

definition Base :: "string \<Rightarrow> string" where
  "Base p =
     (if p = [] then ''.''
      else let q = dropWhile (\<lambda>c. c = CHR ''/'') (rev p);
               b = rev (takeWhile (\<lambda>c. c \<noteq> CHR ''/'') q)
           in if b = [] then ''/'' else b)"

text \<open>A Go slice expression \<^verbatim>\<open>s[:n]\<close> panics unless \<^verbatim>\<open>0 <= n <= len(s)\<close>.\<close>

definition sliceTo :: "string \<Rightarrow> int \<Rightarrow> string option" where
  "sliceTo s n = (if 0 \<le> n \<and> n \<le> int (length s) then Some (take (nat n) s) else None)"

subsection \<open>Errors\<close>

datatype errno = ENOENT | EACCES | EISDIR | ENOTDIR | ENOTEMPTY

fun errnoText :: "errno \<Rightarrow> string" where
  "errnoText ENOENT = ''no such file or directory''"
| "errnoText EACCES = ''permission denied''"
| "errnoText EISDIR = ''is a directory''"
| "errnoText ENOTDIR = ''not a directory''"
| "errnoText ENOTEMPTY = ''directory not empty''"

text \<open>Go error values: \<^verbatim>\<open>errors.New\<close> strings, bare system errors, and
  \<^verbatim>\<open>*os.PathError\<close> (operation, path, system error).\<close>

datatype error = ErrorString string | Errno errno | PathError string string errno

fun errorText :: "error \<Rightarrow> string" where
  "errorText (ErrorString s) = s"
| "errorText (Errno e) = errnoText e"
| "errorText (PathError opn p e) = opn @ '' '' @ p @ '': '' @ errnoText e"

text \<open>\<^verbatim>\<open>errors.Is(err, os.ErrNotExist)\<close>.\<close>

fun IsNotExist :: "error \<Rightarrow> bool" where
  "IsNotExist (Errno e) = (e = ENOENT)"
| "IsNotExist (PathError opn p e) = (e = ENOENT)"
| "IsNotExist (ErrorString s) = False"

subsection \<open>The file system\<close>

text \<open>
  The file system is a finite store from path names to nodes, with the list of operations
  performed on it so far. A path name is the text the program passes; the program passes
  cleaned names. Paths in \<open>denied\<close> fail with a permission error. The parent of a name is
  the directory that holds it: the name followed by \<^verbatim>\<open>..\<close>, cleaned. So the parent of
  \<^verbatim>\<open>a/b\<close> is \<^verbatim>\<open>a\<close>, of \<^verbatim>\<open>a\<close> it is \<^verbatim>\<open>.\<close>, of \<^verbatim>\<open>.\<close> it is \<^verbatim>\<open>..\<close>, of \<^verbatim>\<open>..\<close> it is
  \<^verbatim>\<open>../..\<close>, and the root is its own parent.
\<close>

datatype node = File string | Dir

datatype fsop =
  OpStat string | OpReadDir string | OpCreate string | OpWrite string
| OpRemove string | OpServeFile string

record world =
  entries :: "(string \<times> node) list"
  denied :: "string list"
  oplog :: "fsop list"

definition lookup :: "world \<Rightarrow> string \<Rightarrow> node option" where
  "lookup w p = map_of (entries w) p"

definition logged :: "fsop \<Rightarrow> world \<Rightarrow> world" where
  "logged opn w = w\<lparr>oplog := oplog w @ [opn]\<rparr>"

definition parentOf :: "string \<Rightarrow> string" where
  "parentOf p = Clean (p @ ''/..'')"

definition nameOf :: "string \<Rightarrow> string" where
  "nameOf p = rev (takeWhile (\<lambda>c. c \<noteq> CHR ''/'') (rev p))"

definition children :: "world \<Rightarrow> string \<Rightarrow> (string \<times> node) list" where
  "children w d = filter (\<lambda>(k, n). k \<noteq> d \<and> k \<noteq> [] \<and> parentOf k = d) (entries w)"

definition statResult :: "world \<Rightarrow> string \<Rightarrow> error + node" where
  "statResult w p =
     (if p \<in> set (denied w) then Inl (PathError ''stat'' p EACCES)
      else if p = [] then Inl (PathError ''stat'' p ENOENT)
      else (case lookup w p of
              None \<Rightarrow> Inl (PathError ''stat'' p ENOENT)
            | Some n \<Rightarrow> Inr n))"

definition os_Stat :: "string \<Rightarrow> world \<Rightarrow> (error + node) \<times> world" where
  "os_Stat p w = (statResult w p, logged (OpStat p) w)"

text \<open>\<^verbatim>\<open>os.Create\<close> opens with create and truncate: an existing file is emptied, a
  directory is refused, and a new file needs an existing parent directory.\<close>

definition os_Create :: "string \<Rightarrow> world \<Rightarrow> (error + unit) \<times> world" where
  "os_Create p w =
     (let w1 = logged (OpCreate p) w;
          made = w1\<lparr>entries := AList.update p (File []) (entries w1)\<rparr>
      in if p \<in> set (denied w) then (Inl (PathError ''open'' p EACCES), w1)
         else if p = [] then (Inl (PathError ''open'' p ENOENT), w1)
         else (case lookup w p of
                 Some Dir \<Rightarrow> (Inl (PathError ''open'' p EISDIR), w1)
               | Some (File old) \<Rightarrow> (Inr (), made)
               | None \<Rightarrow>
                   (case lookup w (parentOf p) of
                      Some Dir \<Rightarrow> (Inr (), made)
                    | Some (File old) \<Rightarrow> (Inl (PathError ''open'' p ENOTDIR), w1)
                    | None \<Rightarrow> (Inl (PathError ''open'' p ENOENT), w1))))"

definition os_Remove :: "string \<Rightarrow> world \<Rightarrow> error option \<times> world" where
  "os_Remove p w =
     (let w1 = logged (OpRemove p) w;
          gone = w1\<lparr>entries := AList.delete p (entries w1)\<rparr>
      in if p \<in> set (denied w) then (Some (PathError ''remove'' p EACCES), w1)
         else (case lookup w p of
                 None \<Rightarrow> (Some (PathError ''remove'' p ENOENT), w1)
               | Some (File old) \<Rightarrow> (None, gone)
               | Some Dir \<Rightarrow>
                   (if children w p = [] then (None, gone)
                    else (Some (PathError ''remove'' p ENOTEMPTY), w1))))"

text \<open>\<^verbatim>\<open>os.ReadDir\<close> returns the entries of a directory sorted by file name (bytewise).
  The handler passes the directory name with its trailing separator.\<close>

datatype DirEntry = DirEntry (Name: string) (IsDir: bool)

fun nameLe :: "string \<Rightarrow> string \<Rightarrow> bool" where
  "nameLe [] ys = True"
| "nameLe (x # xs) [] = False"
| "nameLe (x # xs) (y # ys) =
     ((of_char x :: nat) < of_char y \<or> (x = y \<and> nameLe xs ys))"

fun insertEntry :: "DirEntry \<Rightarrow> DirEntry list \<Rightarrow> DirEntry list" where
  "insertEntry e [] = [e]"
| "insertEntry e (d # ds) =
     (if nameLe (Name e) (Name d) then e # d # ds else d # insertEntry e ds)"

definition sortEntries :: "DirEntry list \<Rightarrow> DirEntry list" where
  "sortEntries es = foldr insertEntry es []"

definition dirKey :: "string \<Rightarrow> string" where
  "dirKey p = (if p \<noteq> ''/'' \<and> p \<noteq> [] \<and> last p = CHR ''/'' then butlast p else p)"

definition os_ReadDir :: "string \<Rightarrow> world \<Rightarrow> (error + DirEntry list) \<times> world" where
  "os_ReadDir p w =
     (let w1 = logged (OpReadDir p) w; d = dirKey p
      in if d \<in> set (denied w) then (Inl (PathError ''open'' p EACCES), w1)
         else (case lookup w d of
                 None \<Rightarrow> (Inl (PathError ''open'' p ENOENT), w1)
               | Some (File data) \<Rightarrow> (Inl (PathError ''open'' p ENOTDIR), w1)
               | Some Dir \<Rightarrow>
                   (Inr (sortEntries
                           (map (\<lambda>(k, n). DirEntry (nameOf k) (n = Dir)) (children w d))),
                    w1)))"

section \<open>The server\<close>

subsection \<open>Configuration, requests and responses\<close>

record Config =
  DisableDirectoryListing :: bool
  DontRemoveOnError :: bool
  BasePath :: string

text \<open>A multipart part: its form name, the file name \<^verbatim>\<open>part.FileName()\<close> reports, the
  bytes its reader delivers, and the error that ends the reading when it is not the end of
  the part.\<close>

record Part =
  FormName :: string
  FileName :: string
  content :: string
  readErr :: "error option"

text \<open>A multipart stream delivers its parts in order through \<^verbatim>\<open>NextPart\<close> and then ends,
  with \<^verbatim>\<open>io.EOF\<close> or with an error and no part.\<close>

record Multipart =
  parts :: "Part list"
  ending :: "error option"

text \<open>A request: the value of the query parameter \<^verbatim>\<open>path\<close> and what
  \<^verbatim>\<open>r.MultipartReader()\<close> returns.\<close>

record Request =
  queryPath :: string
  MultipartReader :: "error + Multipart"

datatype headerValue = Plain string | MediaType string "(string \<times> string) list"

text \<open>The response writer: the status written (none yet means 200 when the handler
  returns), the headers set, the body written, and the file handed to
  \<^verbatim>\<open>http.ServeFile\<close>.\<close>

record ResponseWriter =
  status :: "nat option"
  headers :: "(string \<times> headerValue) list"
  body :: string
  served :: "string option"

definition rw0 :: ResponseWriter where
  "rw0 = \<lparr>status = None, headers = [], body = [], served = None\<rparr>"

definition WriteHeader :: "nat \<Rightarrow> ResponseWriter \<Rightarrow> ResponseWriter" where
  "WriteHeader c rw = (if status rw = None then rw\<lparr>status := Some c\<rparr> else rw)"

definition Write :: "string \<Rightarrow> ResponseWriter \<Rightarrow> ResponseWriter" where
  "Write b rw = (WriteHeader 200 rw)\<lparr>body := body rw @ b\<rparr>"

definition SetHeader :: "string \<Rightarrow> headerValue \<Rightarrow> ResponseWriter \<Rightarrow> ResponseWriter" where
  "SetHeader k v rw = rw\<lparr>headers := AList.update k v (headers rw)\<rparr>"

definition finalStatus :: "ResponseWriter \<Rightarrow> nat" where
  "finalStatus rw = (case status rw of None \<Rightarrow> 200 | Some c \<Rightarrow> c)"

definition StatusOK :: nat where "StatusOK = 200"
definition StatusBadRequest :: nat where "StatusBadRequest = 400"

text \<open>A call either returns or panics; a panic leaves the handler without a response.\<close>

datatype 'a outcome = Return 'a | Panic string

subsection \<open>responseError\<close>

definition responseError :: "nat \<Rightarrow> string \<Rightarrow> ResponseWriter \<Rightarrow> ResponseWriter" where
  "responseError statusCode msg rw = Write msg (WriteHeader statusCode rw)"

subsection \<open>validatePath\<close>

definition validatePath :: "string \<Rightarrow> string \<Rightarrow> world \<Rightarrow> (error + string) \<times> world" where
  "validatePath base p0 w =
     (let p = Clean p0
      in case (if p \<noteq> ''.'' \<and> p \<noteq> []
               then find (\<lambda>s. HasPrefix s ''.'') (Split p CHR ''/'') else None) of
           Some s \<Rightarrow> (Inl (ErrorString (''invalid path: '' @ s)), w)
         | None \<Rightarrow>
             (let p = Join [base, p]
              in case os_Stat p w of
                   (Inl err, w1) \<Rightarrow>
                     (Inl (case err of PathError opn q e \<Rightarrow> Errno e | _ \<Rightarrow> err), w1)
                 | (Inr fi, w1) \<Rightarrow> (Inr (if fi = Dir then p @ ''/'' else p), w1)))"

subsection \<open>upload\<close>

text \<open>The loop of \<open>upload\<close> that looks for a name not in use. \<open>i\<close> is the counter before
  the increment.\<close>

function nextFree :: "string \<Rightarrow> string \<Rightarrow> nat \<Rightarrow> world \<Rightarrow> (error + string) outcome \<times> world" where
  "nextFree file ext i w =
     (case os_Stat file w of
        (Inl err, w1) \<Rightarrow>
          (if IsNotExist err then (Return (Inr file), w1) else (Return (Inl err), w1))
      | (Inr fi, w1) \<Rightarrow>
          (case sliceTo file (int (length file) - int (length ext)) of
             None \<Rightarrow> (Panic ''slice bounds out of range'', w1)
           | Some stem \<Rightarrow>
               nextFree (stem @ '' ('' @ Itoa (Suc i) @ '')'' @ ext) ext (Suc i) w1))"
  by pat_completeness auto

text \<open>Each round looks at a strictly longer name, and a name in use is one of the finitely
  many names of the store, so the loop ends.\<close>

termination nextFree
proof (relation "measure (\<lambda>(f, e, i, w).
          length (filter (\<lambda>k. length f \<le> length k) (map fst (entries w))))", goal_cases)
  case 1
  show ?case by simp
next
  case (2 f e i w x1 w1 fi stem)
  have shrink: "length (filter Q xs) < length (filter P xs)"
    if imp: "\<And>k. Q k \<Longrightarrow> P k" and mem: "x \<in> set xs" and px: "P x" and nqx: "\<not> Q x"
    for P Q :: "string \<Rightarrow> bool" and x xs
    using mem
  proof (induction xs)
    case Nil
    then show ?case by simp
  next
    case (Cons a ys)
    have le: "length (filter Q zs) \<le> length (filter P zs)" for zs
      by (induction zs) (use imp in auto)
    show ?case
    proof (cases "x = a")
      case True
      then show ?thesis using px nqx le [of ys] by auto
    next
      case False
      then have "length (filter Q ys) < length (filter P ys)"
        using Cons by simp
      then show ?thesis using imp by auto
    qed
  qed
  from 2 have st: "statResult w f = Inr fi" and w1: "w1 = logged (OpStat f) w"
    by (auto simp: os_Stat_def)
  from st have key: "f \<in> set (map fst (entries w))"
    by (auto simp: statResult_def lookup_def split: if_splits option.splits
             dest: map_of_SomeD intro: rev_image_eqI)
  from 2 have sl: "length e \<le> length f" "stem = take (length f - length e) f"
    by (auto simp: sliceTo_def nat_diff_distrib' split: if_splits)
  let ?new = "stem @ '' ('' @ Itoa (Suc i) @ '')'' @ e"
  have len: "length f < length ?new" using sl by simp
  have "length (filter (\<lambda>k. length ?new \<le> length k) (map fst (entries w)))
        < length (filter (\<lambda>k. length f \<le> length k) (map fst (entries w)))"
    by (rule shrink [where x = f]) (use len key in auto)
  then show ?case by (simp add: w1 logged_def)
qed

declare nextFree.simps [simp del]

text \<open>\<^verbatim>\<open>io.Copy(f, part)\<close> writes the bytes the part delivers into the open file and
  returns their number and the error that ended the reading, if any.\<close>

definition io_Copy :: "string \<Rightarrow> Part \<Rightarrow> world \<Rightarrow> nat \<times> error option \<times> world" where
  "io_Copy f part w =
     (let w1 = logged (OpWrite f) w
      in (length (content part), readErr part,
          w1\<lparr>entries := AList.update f (File (content part)) (entries w1)\<rparr>))"

text \<open>\<open>upload\<close>; the configuration is the global \<^verbatim>\<open>config\<close> of the source. The closing
  of the file and the line printed to standard output are left out.\<close>

definition upload :: "Config \<Rightarrow> string \<Rightarrow> Part \<Rightarrow> world \<Rightarrow> error option outcome \<times> world" where
  "upload config path part w =
     (let fileName = FileName part;
          ext = Ext fileName;
          file0 = Join [path, fileName]
      in case nextFree file0 ext 0 w of
           (Panic m, w1) \<Rightarrow> (Panic m, w1)
         | (Return (Inl err), w1) \<Rightarrow> (Return (Some err), w1)
         | (Return (Inr file1), w1) \<Rightarrow>
             (case os_Create file1 w1 of
                (Inl err, w2) \<Rightarrow> (Return (Some err), w2)
              | (Inr f, w2) \<Rightarrow>
                  (case io_Copy file1 part w2 of
                     (n, err, w3) \<Rightarrow>
                       (if err \<noteq> None \<and> \<not> DontRemoveOnError config
                        then (Return err, snd (os_Remove file1 w3))
                        else (Return err, w3)))))"

subsection \<open>handleList\<close>

text \<open>The loop over the directory entries.\<close>

fun listNames :: "DirEntry list \<Rightarrow> string list" where
  "listNames [] = []"
| "listNames (f # fsys) =
     (if HasPrefix (Name f) ''.'' then listNames fsys
      else (if IsDir f then Name f @ ''/'' else Name f) # listNames fsys)"

definition handleList :: "Config \<Rightarrow> Request \<Rightarrow> world \<Rightarrow> ResponseWriter \<times> world" where
  "handleList config r w =
     (if DisableDirectoryListing config
      then (Write ''[]'' (WriteHeader StatusOK rw0), w)
      else (case validatePath (BasePath config) (queryPath r) w of
              (Inl err, w1) \<Rightarrow> (responseError StatusBadRequest (errorText err) rw0, w1)
            | (Inr path, w1) \<Rightarrow>
                (if \<not> HasSuffix path ''/''
                 then ((SetHeader ''Content-Type'' (Plain ''application/octet-stream'')
                         (SetHeader ''Content-Disposition''
                            (MediaType ''attachment'' [(''filename'', Base path)]) rw0))
                         \<lparr>served := Some path\<rparr>,
                       logged (OpServeFile path) w1)
                 else (case os_ReadDir path w1 of
                         (Inl err, w2) \<Rightarrow>
                           (responseError StatusBadRequest (errorText err) rw0, w2)
                       | (Inr fsys, w2) \<Rightarrow>
                           (Write (''['' @ StringsJoin (listNames fsys) '','' @ '']'')
                              (WriteHeader StatusOK rw0), w2)))))"

subsection \<open>handleUpload\<close>

text \<open>The loop over the parts: \<^verbatim>\<open>NextPart\<close> yields the next part, or no part at the end
  of the stream (with \<^verbatim>\<open>io.EOF\<close> or with an error), where the loop is left.\<close>

fun scanParts :: "Config \<Rightarrow> string \<Rightarrow> Part list \<Rightarrow> world \<Rightarrow> ResponseWriter outcome \<times> world" where
  "scanParts config path [] w =
     (Return (responseError StatusBadRequest ''unknown payload'' rw0), w)"
| "scanParts config path (part # rest) w =
     (if FormName part = ''myFile''
      then (case upload config path part w of
              (Panic m, w1) \<Rightarrow> (Panic m, w1)
            | (Return (Some err), w1) \<Rightarrow>
                (Return (responseError StatusBadRequest
                           (''upload failed: '' @ errorText err) rw0), w1)
            | (Return None, w1) \<Rightarrow> (Return rw0, w1))
      else scanParts config path rest w)"

definition handleUpload :: "Config \<Rightarrow> Request \<Rightarrow> world \<Rightarrow> ResponseWriter outcome \<times> world" where
  "handleUpload config r w =
     (case validatePath (BasePath config) (queryPath r) w of
        (Inl err, w1) \<Rightarrow> (Return (responseError StatusBadRequest (errorText err) rw0), w1)
      | (Inr path, w1) \<Rightarrow>
          (if \<not> HasSuffix path ''/''
           then (Return (responseError StatusBadRequest ''not a directory'' rw0), w1)
           else (case MultipartReader r of
                   Inl err \<Rightarrow>
                     (Return (responseError StatusBadRequest (errorText err) rw0), w1)
                 | Inr mp \<Rightarrow> scanParts config path (parts mp) w1)))"

section \<open>Notions used by the properties\<close>

text \<open>The operations a run adds to the log.\<close>

definition newOps :: "world \<Rightarrow> world \<Rightarrow> fsop list" where
  "newOps w w' = drop (length (oplog w)) (oplog w')"

text \<open>What the listing loop keeps, and how it writes an entry.\<close>

definition visible :: "DirEntry \<Rightarrow> bool" where
  "visible f = (\<not> HasPrefix (Name f) ''.'')"

definition shown :: "DirEntry \<Rightarrow> string" where
  "shown f = (if IsDir f then Name f @ ''/'' else Name f)"

text \<open>
  Lexical containment of paths, with no symbolic links. A path lies inside a base
  directory when both are rooted or both are relative and
  \<^item> the base is a chain of \<^verbatim>\<open>..\<close> elements and the path climbs no higher than the base
    (so \<^verbatim>\<open>notes.txt\<close>, \<^verbatim>\<open>.\<close> and \<^verbatim>\<open>../x\<close> are inside \<^verbatim>\<open>..\<close>, and \<^verbatim>\<open>../../x\<close> is not), or
  \<^item> otherwise, the elements of the base are the first elements of the path and the
    remaining elements of the path have no \<^verbatim>\<open>..\<close> among them.

  Where the answer would depend on the working directory (a relative path that climbs
  higher than the base, or that does not share the \<^verbatim>\<open>..\<close> elements a base starts with, or a
  rooted path against a relative base), the path does not count as inside.
\<close>

definition dotdots :: "string list \<Rightarrow> nat" where
  "dotdots es = length (takeWhile (\<lambda>e. e = ''..'') es)"

definition inside :: "string \<Rightarrow> string \<Rightarrow> bool" where
  "inside base p =
     (isRooted base = isRooted p \<and>
      (if elements base \<noteq> [] \<and> dotdots (elements base) = length (elements base)
       then dotdots (elements p) \<le> length (elements base)
       else prefix (elements base) (elements p) \<and>
            ''..'' \<notin> set (drop (length (elements base)) (elements p))))"

text \<open>\<open>render\<close> is the text \<^verbatim>\<open>filepath.Clean\<close> writes for a list of elements; \<open>good\<close> holds of
  the elements written so far (last one first): none is empty, \<^verbatim>\<open>.\<close> or contains a
  separator, a rooted path has no \<^verbatim>\<open>..\<close>, and below a \<^verbatim>\<open>..\<close> there are only \<^verbatim>\<open>..\<close>.\<close>

definition render :: "bool \<Rightarrow> string list \<Rightarrow> string" where
  "render rooted es =
     (if rooted then CHR ''/'' # StringsJoin es ''/''
      else if es = [] then ''.'' else StringsJoin es ''/'')"

fun okStack :: "string list \<Rightarrow> bool" where
  "okStack [] = True"
| "okStack (t # ts) = ((t = ''..'' \<longrightarrow> (\<forall>x\<in>set ts. x = ''..'')) \<and> okStack ts)"

definition good :: "bool \<Rightarrow> string list \<Rightarrow> bool" where
  "good rooted out =
     ((\<forall>e\<in>set out. e \<noteq> [] \<and> e \<noteq> ''.'' \<and> CHR ''/'' \<notin> set e) \<and>
      (rooted \<longrightarrow> ''..'' \<notin> set out) \<and> okStack out)"

subsection \<open>Example data\<close>

definition exWorld :: world where
  "exWorld =
     \<lparr>entries = [(''/srv'', Dir), (''/srv/files'', Dir),
                 (''/srv/files/report.pdf'', File ''old'')],
      denied = [], oplog = []\<rparr>"

definition exConfig :: Config where
  "exConfig =
     \<lparr>DisableDirectoryListing = False, DontRemoveOnError = False, BasePath = ''/srv/files''\<rparr>"

definition exKeep :: Config where
  "exKeep =
     \<lparr>DisableDirectoryListing = True, DontRemoveOnError = True, BasePath = ''/srv/files''\<rparr>"

definition exPart :: Part where
  "exPart = \<lparr>FormName = ''myFile'', FileName = ''report.pdf'', content = ''new'', readErr = None\<rparr>"

definition exBroken :: Part where
  "exBroken =
     \<lparr>FormName = ''myFile'', FileName = ''report.pdf'', content = ''ne'',
      readErr = Some (ErrorString ''unexpected EOF'')\<rparr>"

definition exOther :: Part where
  "exOther = \<lparr>FormName = ''note'', FileName = [], content = ''hello'', readErr = None\<rparr>"

definition exRequest :: Request where
  "exRequest =
     \<lparr>queryPath = [],
      MultipartReader = Inr \<lparr>parts = [exOther, exPart, exBroken], ending = None\<rparr>\<rparr>"

definition exTaken :: world where
  "exTaken =
     \<lparr>entries = [(''/srv'', Dir), (''/srv/files'', Dir),
                 (''/srv/files/report.pdf'', Dir), (''/srv/files/report (1).pdf'', File ''one'')],
      denied = [], oplog = []\<rparr>"

definition exListing :: world where
  "exListing =
     \<lparr>entries = [(''/srv'', Dir), (''/srv/files'', Dir), (''/srv/files/sub'', Dir),
                 (''/srv/files/a.txt'', File ''text''), (''/srv/files/.git'', Dir),
                 (''/srv/files/sub/inner.txt'', File ''deep'')],
      denied = [], oplog = []\<rparr>"

definition exRoot :: world where
  "exRoot =
     \<lparr>entries = [(''.'', Dir), (''notes.txt'', File ''n''), (''/'', Dir), (''/etc'', Dir),
                 (''/etc/passwd'', File ''root:x:0:0'')],
      denied = [], oplog = []\<rparr>"



definition config0 :: Config where
  "config0 = \<lparr>DisableDirectoryListing = False, DontRemoveOnError = False, BasePath = []\<rparr>"





section \<open>Basic facts\<close>

lemma statResult_logged [simp]: "statResult (logged x w) p = statResult w p"
  by (simp add: statResult_def logged_def lookup_def)

lemma lookup_logged [simp]: "lookup (logged x w) p = lookup w p"
  by (simp add: logged_def lookup_def)

lemma entries_logged [simp]: "entries (logged x w) = entries w"
  and denied_logged [simp]: "denied (logged x w) = denied w"
  and oplog_logged [simp]: "oplog (logged x w) = oplog w @ [x]"
  by (simp_all add: logged_def)

lemma statResult_cases:
  "statResult w p = Inl err \<Longrightarrow>
     err = PathError ''stat'' p EACCES \<or> err = PathError ''stat'' p ENOENT"
  by (auto simp: statResult_def split: if_splits option.splits)

lemma statResult_ENOENT:
  "statResult w p = Inl (PathError ''stat'' p ENOENT) \<Longrightarrow>
     p \<notin> set (denied w) \<and> (p = [] \<or> lookup w p = None)"
  by (auto simp: statResult_def split: if_splits option.splits)

lemma nextFree_unfold:
  "nextFree f e i w =
     (case statResult w f of
        Inl err \<Rightarrow> if IsNotExist err then (Return (Inr f), logged (OpStat f) w)
                    else (Return (Inl err), logged (OpStat f) w)
      | Inr fi \<Rightarrow>
          (case sliceTo f (int (length f) - int (length e)) of
             None \<Rightarrow> (Panic ''slice bounds out of range'', logged (OpStat f) w)
           | Some stem \<Rightarrow>
               nextFree (stem @ '' ('' @ Itoa (Suc i) @ '')'' @ e) e (Suc i)
                 (logged (OpStat f) w)))"
  by (subst nextFree.simps) (simp add: os_Stat_def split: sum.splits)

text \<open>The loop only reads: it leaves the store as it is and adds stat operations to the log.\<close>

lemma nextFree_world:
  "nextFree f e i w = (r, w1) \<Longrightarrow>
     entries w1 = entries w \<and> denied w1 = denied w \<and>
     (\<exists>ops. oplog w1 = oplog w @ ops \<and> (\<forall>x\<in>set ops. \<exists>q. x = OpStat q))"
proof (induction f e i w arbitrary: r w1 rule: nextFree.induct)
  case (1 f e i w)
  show ?case
  proof (cases "statResult w f")
    case (Inl err)
    with "1.prems" have "w1 = logged (OpStat f) w"
      by (simp add: nextFree_unfold [of f e i w] split: if_splits)
    then show ?thesis by simp
  next
    case (Inr fi)
    show ?thesis
    proof (cases "sliceTo f (int (length f) - int (length e))")
      case None
      with Inr "1.prems" have "w1 = logged (OpStat f) w"
        by (simp add: nextFree_unfold [of f e i w])
      then show ?thesis by simp
    next
      case (Some stem)
      with Inr "1.prems" have rec:
        "nextFree (stem @ '' ('' @ Itoa (Suc i) @ '')'' @ e) e (Suc i) (logged (OpStat f) w)
           = (r, w1)"
        by (simp add: nextFree_unfold [of f e i w])
      have "entries w1 = entries (logged (OpStat f) w) \<and>
            denied w1 = denied (logged (OpStat f) w) \<and>
            (\<exists>ops. oplog w1 = oplog (logged (OpStat f) w) @ ops \<and>
                   (\<forall>x\<in>set ops. \<exists>q. x = OpStat q))"
        by (rule "1.IH" [OF _ _ Some rec]) (simp_all add: os_Stat_def Inr)
      then show ?thesis by auto
    qed
  qed
qed

text \<open>The name the loop returns is one for which stat reported that nothing exists.\<close>

lemma nextFree_free:
  "nextFree f e i w = (Return (Inr g), w1) \<Longrightarrow>
     statResult w g = Inl (PathError ''stat'' g ENOENT)"
proof (induction f e i w arbitrary: w1 rule: nextFree.induct)
  case (1 f e i w)
  show ?case
  proof (cases "statResult w f")
    case (Inl err)
    with "1.prems" have "g = f" "IsNotExist err"
      by (auto simp add: nextFree_unfold [of f e i w] split: if_splits)
    then show ?thesis using Inl statResult_cases [OF Inl] by auto
  next
    case (Inr fi)
    show ?thesis
    proof (cases "sliceTo f (int (length f) - int (length e))")
      case None
      with Inr "1.prems" show ?thesis
        by (simp add: nextFree_unfold [of f e i w])
    next
      case (Some stem)
      with Inr "1.prems" have rec:
        "nextFree (stem @ '' ('' @ Itoa (Suc i) @ '')'' @ e) e (Suc i) (logged (OpStat f) w)
           = (Return (Inr g), w1)"
        by (simp add: nextFree_unfold [of f e i w])
      have "statResult (logged (OpStat f) w) g = Inl (PathError ''stat'' g ENOENT)"
        by (rule "1.IH" [OF _ _ Some rec]) (simp_all add: os_Stat_def Inr)
      then show ?thesis by simp
    qed
  qed
qed

lemma os_Create_Inr:
  assumes "os_Create f w = (Inr u, w2)"
  shows "f \<notin> set (denied w)" "f \<noteq> []" "lookup w f \<noteq> Some Dir"
    "w2 = (logged (OpCreate f) w)\<lparr>entries := AList.update f (File []) (entries w)\<rparr>"
  using assms
  by (auto simp: os_Create_def Let_def split: if_splits option.splits node.splits)

lemma os_Remove_file:
  assumes "lookup w f = Some (File d)" "f \<notin> set (denied w)"
  shows "os_Remove f w =
           (None, (logged (OpRemove f) w)\<lparr>entries := AList.delete f (entries w)\<rparr>)"
  using assms by (simp add: os_Remove_def Let_def)

lemma io_Copy_eq:
  "io_Copy f part w =
     (length (content part), readErr part,
      (logged (OpWrite f) w)\<lparr>entries := AList.update f (File (content part)) (entries w)\<rparr>)"
  by (simp add: io_Copy_def Let_def)

lemma upload_unfold:
  assumes "nextFree (Join [path, FileName part]) (Ext (FileName part)) 0 w = (r, w1)"
  shows "upload config path part w =
     (case r of
        Panic m \<Rightarrow> (Panic m, w1)
      | Return (Inl err) \<Rightarrow> (Return (Some err), w1)
      | Return (Inr f) \<Rightarrow>
          (case os_Create f w1 of
             (Inl err, w2) \<Rightarrow> (Return (Some err), w2)
           | (Inr u, w2) \<Rightarrow>
               (let w3 = (logged (OpWrite f) w2)
                           \<lparr>entries := AList.update f (File (content part)) (entries w2)\<rparr>
                in if readErr part \<noteq> None \<and> \<not> DontRemoveOnError config
                   then (Return (readErr part), snd (os_Remove f w3))
                   else (Return (readErr part), w3))))"
  using assms
  by (simp add: upload_def Let_def io_Copy_eq split: outcome.splits sum.splits prod.splits)

lemma responseError_fields:
  "finalStatus (responseError c msg rw0) = c" "body (responseError c msg rw0) = msg"
  by (simp_all add: responseError_def Write_def WriteHeader_def rw0_def finalStatus_def)

lemma rw0_fields: "finalStatus rw0 = 200" "body rw0 = []"
  by (simp_all add: rw0_def finalStatus_def)

lemma scanParts_none:
  "\<forall>p\<in>set ps. FormName p \<noteq> ''myFile'' \<Longrightarrow>
     scanParts config path ps w =
       (Return (responseError StatusBadRequest ''unknown payload'' rw0), w)"
  by (induction ps) auto

lemma scanParts_first:
  "\<forall>p\<in>set pre. FormName p \<noteq> ''myFile'' \<Longrightarrow> FormName part = ''myFile'' \<Longrightarrow>
     scanParts config path (pre @ part # post) w =
       (case upload config path part w of
          (Panic m, w1) \<Rightarrow> (Panic m, w1)
        | (Return (Some err), w1) \<Rightarrow>
            (Return (responseError StatusBadRequest (''upload failed: '' @ errorText err) rw0),
             w1)
        | (Return None, w1) \<Rightarrow> (Return rw0, w1))"
  by (induction pre) auto

lemma split_first:
  "\<exists>p\<in>set ps. P p \<Longrightarrow> \<exists>pre x post. ps = pre @ x # post \<and> (\<forall>p\<in>set pre. \<not> P p) \<and> P x"
  by (metis split_list_first_prop)

lemma os_Create_log: "oplog (snd (os_Create f w)) = oplog w @ [OpCreate f]"
  by (auto simp: os_Create_def Let_def split: if_splits option.splits node.splits)

lemma os_Remove_log: "oplog (snd (os_Remove f w)) = oplog w @ [OpRemove f]"
  by (auto simp: os_Remove_def Let_def split: if_splits option.splits node.splits)

lemma upload_creates:
  assumes "OpCreate g \<in> set (newOps w (snd (upload config path part w)))"
  shows "\<exists>w1. nextFree (Join [path, FileName part]) (Ext (FileName part)) 0 w = (Return (Inr g), w1)"
proof -
  obtain r w1 where
    nf: "nextFree (Join [path, FileName part]) (Ext (FileName part)) 0 w = (r, w1)"
    by (cases "nextFree (Join [path, FileName part]) (Ext (FileName part)) 0 w")
  from nextFree_world [OF nf] obtain ops where
    ops: "oplog w1 = oplog w @ ops" "\<forall>x\<in>set ops. \<exists>q. x = OpStat q" by blast
  have nostat: "OpCreate g \<notin> set ops" using ops(2) by auto
  show ?thesis
  proof (cases r)
    case (Panic m)
    with assms nostat show ?thesis by (simp add: upload_unfold [OF nf] newOps_def ops(1))
  next
    case (Return x)
    show ?thesis
    proof (cases x)
      case (Inl err)
      with Return assms nostat show ?thesis
        by (simp add: upload_unfold [OF nf] newOps_def ops(1))
    next
      case (Inr f)
      obtain c w2 where cr: "os_Create f w1 = (c, w2)" by (cases "os_Create f w1")
      have l2: "oplog w2 = oplog w @ ops @ [OpCreate f]"
        using os_Create_log [of f w1] cr ops(1) by simp
      have "set (newOps w (snd (upload config path part w))) \<subseteq> set ops \<union> {OpCreate f, OpWrite f, OpRemove f}"
        using Return Inr cr l2
        by (auto simp add: upload_unfold [OF nf] newOps_def Let_def os_Remove_log
              split: sum.splits if_splits)
      with assms nostat have "g = f" by auto
      with nf Return Inr show ?thesis by simp
    qed
  qed
qed

lemma find_first:
  "\<forall>t\<in>set pre. \<not> P t \<Longrightarrow> P s \<Longrightarrow> find P (pre @ s # post) = Some s"
  by (induction pre) auto

lemma listNames_filter_map: "listNames fsys = map shown (filter visible fsys)"
  by (induction fsys) (simp_all add: visible_def shown_def)

lemma mset_two: "mset xs = {#a, b#} \<Longrightarrow> xs = [a, b] \<or> xs = [b, a]"
proof -
  assume h: "mset xs = {#a, b#}"
  then have "size (mset xs) = 2" by simp
  then have len: "length xs = Suc (Suc 0)" by simp
  then obtain x ys where xs: "xs = x # ys" by (cases xs) auto
  with len obtain y where "ys = [y]" by (cases ys) auto
  with xs h show ?thesis by (auto simp: add_eq_conv_ex)
qed

section \<open>Facts about cleaned paths\<close>

lemma Split_nonempty [simp]: "Split s c \<noteq> []"
  by (induction s) (auto split: list.splits)

lemma Split_no_sep: "x \<in> set (Split s c) \<Longrightarrow> c \<notin> set x"
proof (induction s arbitrary: x)
  case Nil then show ?case by simp
next
  case (Cons a s)
  then show ?case by (cases "Split s c") (auto split: if_splits)
qed

lemma Split_nosep: "c \<notin> set s \<Longrightarrow> Split s c = [s]"
  by (induction s) auto

lemma Split_append_sep: "Split (a @ c # b) c = Split a c @ Split b c"
proof (induction a)
  case Nil show ?case by simp
next
  case (Cons x a)
  then show ?case by (cases "Split a c") auto
qed

lemma Split_snoc_sep: "Split (a @ [c]) c = Split a c @ [[]]"
  using Split_append_sep [of a c "[]"] by simp

lemma Split_append_nosep:
  "c \<notin> set t \<Longrightarrow> Split (a @ t) c = butlast (Split a c) @ [last (Split a c) @ t]"
proof (induction a)
  case Nil then show ?case by (simp add: Split_nosep)
next
  case (Cons x a)
  then show ?case by (cases "Split a c") (auto simp: Split_nosep)
qed

lemma Split_StringsJoin:
  "es \<noteq> [] \<Longrightarrow> \<forall>e\<in>set es. c \<notin> set e \<Longrightarrow> Split (StringsJoin es [c]) c = es"
proof (induction es "[c]" rule: StringsJoin.induct)
  case 1 then show ?case by simp
next
  case (2 x) then show ?case by (simp add: Split_nosep)
next
  case (3 x y ys)
  then have "Split (StringsJoin (y # ys) [c]) c = y # ys" by simp
  moreover have "Split x c = [x]" using 3 by (simp add: Split_nosep)
  ultimately show ?case using Split_append_sep [of x c "StringsJoin (y # ys) [c]"] by simp
qed

lemma cleanStep_empty [simp]: "cleanStep ro out [] = out"
  by (simp add: cleanStep_def)

lemma cleanStep_dot [simp]: "cleanStep ro out ''.'' = out"
  by (simp add: cleanStep_def)

lemma cleanStep_plain:
  "e \<noteq> [] \<Longrightarrow> e \<noteq> ''.'' \<Longrightarrow> e \<noteq> ''..'' \<Longrightarrow> cleanStep ro out e = e # out"
  by (simp add: cleanStep_def)

lemma cleanStep_good:
  assumes "good ro out" "CHR ''/'' \<notin> set e"
  shows "good ro (cleanStep ro out e)"
proof (cases "e = [] \<or> e = ''.''")
  case True then show ?thesis using assms by auto
next
  case False
  show ?thesis
  proof (cases "e = ''..''")
    case True
    show ?thesis
    proof (cases out)
      case Nil
      then show ?thesis using True by (simp add: cleanStep_def good_def)
    next
      case (Cons t ts)
      then show ?thesis using True assms(1) by (auto simp: cleanStep_def good_def)
    qed
  next
    case ne: False
    then have "cleanStep ro out e = e # out" using False by (simp add: cleanStep_plain)
    then show ?thesis using assms False ne by (auto simp: good_def)
  qed
qed

lemma foldl_cleanStep_good:
  "good ro out \<Longrightarrow> \<forall>e\<in>set es. CHR ''/'' \<notin> set e \<Longrightarrow> good ro (foldl (cleanStep ro) out es)"
  by (induction es arbitrary: out) (auto intro: cleanStep_good)

lemma good_Nil [simp]: "good ro []"
  by (simp add: good_def)

lemma elements_good: "good (isRooted p) (rev (elements p))"
  unfolding elements_def
  by (simp add: foldl_cleanStep_good Split_no_sep)

lemma foldl_cleanStep_rebuild:
  "good ro (rev es) \<Longrightarrow> foldl (cleanStep ro) [] es = rev es"
proof (induction es rule: rev_induct)
  case Nil show ?case by simp
next
  case (snoc e es)
  from snoc.prems have g: "good ro (e # rev es)" by simp
  then have g': "good ro (rev es)" by (auto simp: good_def)
  have IH: "foldl (cleanStep ro) [] es = rev es" by (rule snoc.IH [OF g'])
  have "cleanStep ro (rev es) e = e # rev es"
  proof (cases "e = ''..''")
    case True
    with g have all: "\<forall>x\<in>set (rev es). x = ''..''" and nr: "\<not> ro"
      by (auto simp: good_def)
    show ?thesis
    proof (cases "rev es")
      case Nil then show ?thesis using True nr by (simp add: cleanStep_def)
    next
      case (Cons t ts)
      with all have "t = ''..''" by simp
      then show ?thesis using True nr Cons by (simp add: cleanStep_def)
    qed
  next
    case False
    then show ?thesis using g by (auto simp: good_def cleanStep_plain)
  qed
  then show ?case by (simp add: IH)
qed

lemma Clean_render: "p \<noteq> [] \<Longrightarrow> Clean p = render (isRooted p) (elements p)"
  by (simp add: Clean_def render_def)

lemma hd_StringsJoin:
  "es \<noteq> [] \<Longrightarrow> hd es \<noteq> [] \<Longrightarrow> hd (StringsJoin es sep) = hd (hd es)"
  by (induction es sep rule: StringsJoin.induct) auto

lemma StringsJoin_Nil_iff:
  "\<forall>e\<in>set es. e \<noteq> [] \<Longrightarrow> StringsJoin es sep = [] \<longleftrightarrow> es = []"
  by (induction es sep rule: StringsJoin.induct) auto

lemma render_nonempty: "\<forall>e\<in>set es. e \<noteq> [] \<Longrightarrow> render ro es \<noteq> []"
  by (simp add: render_def StringsJoin_Nil_iff)

lemma Clean_nonempty [simp]: "Clean p \<noteq> []"
proof (cases "p = []")
  case True then show ?thesis by (simp add: Clean_def)
next
  case False
  have "\<forall>e\<in>set (elements p). e \<noteq> []"
    using elements_good [of p] by (auto simp: good_def)
  then show ?thesis using False by (simp add: Clean_render render_nonempty)
qed

lemma isRooted_render:
  assumes "good ro (rev es)"
  shows "isRooted (render ro es) = ro"
proof (cases ro)
  case True then show ?thesis by (simp add: render_def isRooted_def)
next
  case False
  show ?thesis
  proof (cases es)
    case Nil then show ?thesis using False by (simp add: render_def isRooted_def)
  next
    case (Cons e es')
    with assms have e: "e \<noteq> []" "CHR ''/'' \<notin> set e" by (auto simp: good_def)
    then have "hd e \<noteq> CHR ''/''" by (cases e) auto
    moreover have "hd (StringsJoin es ''/'') = hd e"
      using hd_StringsJoin [of es "''/''"] Cons e by simp
    ultimately show ?thesis using False Cons by (simp add: render_def isRooted_def)
  qed
qed

lemma foldl_render:
  assumes "good ro (rev es)"
  shows "foldl (cleanStep ro) [] (Split (render ro es) CHR ''/'') = rev es"
proof -
  have nosep: "\<forall>e\<in>set es. CHR ''/'' \<notin> set e" using assms by (auto simp: good_def)
  have rebuild: "foldl (cleanStep ro) [] es = rev es"
    by (rule foldl_cleanStep_rebuild [OF assms])
  show ?thesis
  proof (cases "es = []")
    case True
    then show ?thesis by (simp add: render_def)
  next
    case False
    have sp: "Split (StringsJoin es ''/'') CHR ''/'' = es"
      using Split_StringsJoin [OF False, of "CHR ''/''"] nosep by simp
    show ?thesis using False sp rebuild by (cases ro) (simp_all add: render_def)
  qed
qed

lemma elements_render:
  assumes "good ro (rev es)"
  shows "elements (render ro es) = es"
  using foldl_render [OF assms] isRooted_render [OF assms] by (simp add: elements_def)

lemma elements_Clean:
  assumes "p \<noteq> []"
  shows "elements (Clean p) = elements p" and "isRooted (Clean p) = isRooted p"
  using assms elements_render [OF elements_good [of p]] isRooted_render [OF elements_good [of p]]
  by (simp_all add: Clean_render)

lemma isRooted_append: "s \<noteq> [] \<Longrightarrow> isRooted (s @ t) = isRooted s"
  by (simp add: isRooted_def)

lemma elements_snoc_slash: "s \<noteq> [] \<Longrightarrow> elements (s @ ''/'') = elements s"
  using Split_snoc_sep [of s "CHR ''/''"] by (simp add: elements_def isRooted_append)



lemma HasPrefix_dot: "HasPrefix s ''.'' \<longleftrightarrow> (\<exists>t. s = CHR ''.'' # t)"
  by (cases s) (auto simp: HasPrefix_def)

lemma foldl_plain:
  "\<forall>s\<in>set segs. \<not> HasPrefix s ''.'' \<Longrightarrow>
     foldl (cleanStep ro) out segs = rev (filter (\<lambda>s. s \<noteq> []) segs) @ out"
proof (induction segs arbitrary: out)
  case Nil show ?case by simp
next
  case (Cons s segs)
  then have s: "\<not> HasPrefix s ''.''" by simp
  have step: "cleanStep ro out s = (if s = [] then out else s # out)"
    using s by (auto simp: HasPrefix_dot cleanStep_def)
  show ?case using Cons by (simp add: step)
qed

lemma validatePath_Inr:
  assumes "validatePath base p w = (Inr r, w1)"
  shows "(Clean p = ''.'' \<or> (\<forall>s\<in>set (Split (Clean p) CHR ''/''). \<not> HasPrefix s ''.''))"
    and "\<exists>fi. statResult w (Join [base, Clean p]) = Inr fi \<and>
              r = (if fi = Dir then Join [base, Clean p] @ ''/'' else Join [base, Clean p])"
    and "w1 = logged (OpStat (Join [base, Clean p])) w"
  using assms
  by (auto simp: validatePath_def Let_def os_Stat_def find_None_iff
           split: option.splits sum.splits if_splits)

lemma Join_two: "Join [a, b] = (if a \<noteq> [] then Clean (a @ ''/'' @ b) else if b \<noteq> [] then Clean b else [])"
  by (simp add: Join_def)

lemma elements_Nil [simp]: "elements [] = []"
  by (simp add: elements_def)

lemma elements_plain:
  "\<forall>s\<in>set (Split c CHR ''/''). \<not> HasPrefix s ''.'' \<Longrightarrow>
     elements c = filter (\<lambda>s. s \<noteq> []) (Split c CHR ''/'')"
  by (simp add: elements_def foldl_plain)

lemma elements_join_plain:
  assumes "base \<noteq> []" "\<forall>s\<in>set (Split c CHR ''/''). \<not> HasPrefix s ''.''"
  shows "elements (base @ ''/'' @ c) = elements base @ filter (\<lambda>s. s \<noteq> []) (Split c CHR ''/'')"
proof -
  have "Split (base @ ''/'' @ c) CHR ''/'' = Split base CHR ''/'' @ Split c CHR ''/''"
    using Split_append_sep [of base "CHR ''/''" c] by simp
  then show ?thesis using assms by (simp add: elements_def isRooted_append foldl_plain)
qed

lemma elements_join_dot:
  assumes "base \<noteq> []"
  shows "elements (base @ ''/'' @ ''.'') = elements base"
proof -
  have "Split (base @ ''/'' @ ''.'') CHR ''/'' = Split base CHR ''/'' @ [''.'']"
    using Split_append_sep [of base "CHR ''/''" "''.''"] by simp
  then show ?thesis using assms by (simp add: elements_def isRooted_append)
qed

lemma plain_no_dotdot:
  "\<forall>s\<in>set segs. \<not> HasPrefix s ''.'' \<Longrightarrow> ''..'' \<notin> set (filter (\<lambda>s. s \<noteq> []) segs)"
  by (auto simp: HasPrefix_dot)

text \<open>What validatePath returns has the elements of the name it looked up.\<close>

lemma elements_result:
  assumes "x \<noteq> []" "r = Clean x \<or> r = Clean x @ ''/''"
  shows "elements r = elements x" "isRooted r = isRooted x"
  using assms elements_Clean [OF assms(1)] elements_snoc_slash [of "Clean x"]
    isRooted_append [of "Clean x" "''/''"]
  by auto



lemma sliceTo_all [simp]: "sliceTo s (int (length s)) = Some s"
  by (simp add: sliceTo_def)














lemma dotdots_all: "dotdots es = length es \<longleftrightarrow> (\<forall>e\<in>set es. e = ''..'')"
proof (induction es)
  case Nil
  show ?case by (simp add: dotdots_def)
next
  case (Cons a es)
  then show ?case by (auto simp: dotdots_def)
qed

lemma dotdots_chain:
  "\<forall>e\<in>set es. e = ''..'' \<Longrightarrow> y \<noteq> ''..'' \<Longrightarrow> dotdots (es @ y # ys) = length es"
  by (simp add: dotdots_def takeWhile_append2)

lemma dotdots_chain_only:
  "\<forall>e\<in>set es. e = ''..'' \<Longrightarrow> ''..'' \<notin> set ys \<Longrightarrow> dotdots (es @ ys) = length es"
proof (cases ys)
  case Nil
  assume "\<forall>e\<in>set es. e = ''..''"
  then show ?thesis using Nil dotdots_all [of es] by simp
next
  case (Cons y zs)
  assume "\<forall>e\<in>set es. e = ''..''" "''..'' \<notin> set ys"
  then show ?thesis using Cons dotdots_chain [of es y zs] by auto
qed


lemma inside_extend:
  assumes "isRooted b = isRooted p" "elements p = elements b @ ys" "''..'' \<notin> set ys"
  shows "inside b p"
proof (cases "elements b \<noteq> [] \<and> dotdots (elements b) = length (elements b)")
  case True
  then have "\<forall>e\<in>set (elements b). e = ''..''" by (simp add: dotdots_all)
  then have "dotdots (elements p) = length (elements b)"
    using assms(2,3) by (simp add: dotdots_chain_only)
  then show ?thesis using True assms(1) by (simp add: inside_def)
next
  case False
  then show ?thesis using assms by (auto simp: inside_def)
qed





section \<open>Properties of the upload\<close>

text \<open>
  C5. A successful upload creates one file, at a name where nothing existed before; that
  file holds exactly the bytes of the part, and the store is unchanged at every other
  name, so no file that existed before is overwritten, truncated or deleted.
\<close>

theorem upload_success_frame:
  assumes "upload config path part w = (Return None, w')"
  shows "\<exists>f. lookup w f = None \<and> lookup w' f = Some (File (content part)) \<and>
             (\<forall>p. p \<noteq> f \<longrightarrow> lookup w' p = lookup w p)"
proof -
  obtain r w1 where
    nf: "nextFree (Join [path, FileName part]) (Ext (FileName part)) 0 w = (r, w1)"
    by (cases "nextFree (Join [path, FileName part]) (Ext (FileName part)) 0 w")
  from assms obtain f where r: "r = Return (Inr f)"
    by (auto simp: upload_unfold [OF nf] split: outcome.splits sum.splits)
  obtain c w2 where cr: "os_Create f w1 = (c, w2)" by (cases "os_Create f w1")
  from assms r cr obtain u where c: "c = Inr u"
    by (auto simp: upload_unfold [OF nf] split: sum.splits)
  from assms r cr c have
    w': "w' = (logged (OpWrite f) w2)
                \<lparr>entries := AList.update f (File (content part)) (entries w2)\<rparr>"
    by (auto simp: upload_unfold [OF nf] Let_def split: if_splits)
  have e1: "entries w1 = entries w" using nextFree_world [OF nf] by auto
  have free: "statResult w f = Inl (PathError ''stat'' f ENOENT)"
    using nextFree_free nf r by blast
  have cre: "f \<noteq> []"
    "w2 = (logged (OpCreate f) w1)\<lparr>entries := AList.update f (File []) (entries w1)\<rparr>"
    using os_Create_Inr [OF cr [unfolded c]] by auto
  have none: "lookup w f = None" using statResult_ENOENT [OF free] cre(1) by auto
  have "lookup w' p = (if p = f then Some (File (content part)) else lookup w p)" for p
    by (simp add: w' cre(2) lookup_def update_conv' e1)
  with none show ?thesis by auto
qed

theorem upload_success_frame_witness:
  "upload exConfig ''/srv/files/'' exPart exWorld =
     (Return None,
      \<lparr>entries = [(''/srv'', Dir), (''/srv/files'', Dir),
                  (''/srv/files/report.pdf'', File ''old''),
                  (''/srv/files/report (1).pdf'', File ''new'')],
       denied = [],
       oplog = [OpStat ''/srv/files/report.pdf'', OpStat ''/srv/files/report (1).pdf'',
                OpCreate ''/srv/files/report (1).pdf'',
                OpWrite ''/srv/files/report (1).pdf'']\<rparr>)
   \<and> (\<exists>f. lookup exWorld f = None \<and>
           lookup \<lparr>entries = [(''/srv'', Dir), (''/srv/files'', Dir),
                              (''/srv/files/report.pdf'', File ''old''),
                              (''/srv/files/report (1).pdf'', File ''new'')],
                   denied = [],
                   oplog = [OpStat ''/srv/files/report.pdf'',
                            OpStat ''/srv/files/report (1).pdf'',
                            OpCreate ''/srv/files/report (1).pdf'',
                            OpWrite ''/srv/files/report (1).pdf'']\<rparr> f
             = Some (File (content exPart)) \<and>
           (\<forall>p. p \<noteq> f \<longrightarrow>
              lookup \<lparr>entries = [(''/srv'', Dir), (''/srv/files'', Dir),
                                 (''/srv/files/report.pdf'', File ''old''),
                                 (''/srv/files/report (1).pdf'', File ''new'')],
                      denied = [],
                      oplog = [OpStat ''/srv/files/report.pdf'',
                               OpStat ''/srv/files/report (1).pdf'',
                               OpCreate ''/srv/files/report (1).pdf'',
                               OpWrite ''/srv/files/report (1).pdf'']\<rparr> p
                = lookup exWorld p))"
proof -
  have h: "upload exConfig ''/srv/files/'' exPart exWorld =
     (Return None,
      \<lparr>entries = [(''/srv'', Dir), (''/srv/files'', Dir),
                  (''/srv/files/report.pdf'', File ''old''),
                  (''/srv/files/report (1).pdf'', File ''new'')],
       denied = [],
       oplog = [OpStat ''/srv/files/report.pdf'', OpStat ''/srv/files/report (1).pdf'',
                OpCreate ''/srv/files/report (1).pdf'',
                OpWrite ''/srv/files/report (1).pdf'']\<rparr>)"
    by code_simp
  show ?thesis using h upload_success_frame [OF h] by blast
qed

text \<open>
  C6. When the reading of the part ends in an error after the file was created, upload
  returns that error. If partial uploads are not kept, nothing remains at the name of the
  file; if they are kept, the file remains and holds the bytes delivered before the error.
\<close>

theorem upload_copy_failure:
  assumes nf: "nextFree (Join [path, FileName part]) (Ext (FileName part)) 0 w
                 = (Return (Inr f), w1)"
    and cr: "os_Create f w1 = (Inr u, w2)"
    and rd: "readErr part = Some err"
  shows "fst (upload config path part w) = Return (Some err) \<and>
         (\<not> DontRemoveOnError config \<longrightarrow>
            lookup (snd (upload config path part w)) f = None) \<and>
         (DontRemoveOnError config \<longrightarrow>
            lookup (snd (upload config path part w)) f = Some (File (content part)))"
proof -
  let ?w3 = "(logged (OpWrite f) w2)
               \<lparr>entries := AList.update f (File (content part)) (entries w2)\<rparr>"
  have up: "upload config path part w =
      (if \<not> DontRemoveOnError config then (Return (Some err), snd (os_Remove f ?w3))
       else (Return (Some err), ?w3))"
    by (simp add: upload_unfold [OF nf] cr rd Let_def)
  have nd: "f \<notin> set (denied w1)"
    and w2: "w2 = (logged (OpCreate f) w1)
                    \<lparr>entries := AList.update f (File []) (entries w1)\<rparr>"
    using os_Create_Inr [OF cr] by auto
  have l3: "lookup ?w3 f = Some (File (content part))"
    by (simp add: lookup_def update_conv')
  have d3: "f \<notin> set (denied ?w3)" using nd by (simp add: w2)
  have rm: "os_Remove f ?w3 =
      (None, (logged (OpRemove f) ?w3)\<lparr>entries := AList.delete f (entries ?w3)\<rparr>)"
    by (rule os_Remove_file [OF l3 d3])
  have gone: "lookup (snd (os_Remove f ?w3)) f = None"
    by (simp add: rm lookup_def delete_conv')
  show ?thesis using up l3 gone by simp
qed

theorem upload_copy_failure_witness:
  "nextFree (Join [''/srv/files/'', FileName exBroken]) (Ext (FileName exBroken)) 0 exWorld
     = (Return (Inr ''/srv/files/report (1).pdf''),
        exWorld\<lparr>oplog := [OpStat ''/srv/files/report.pdf'',
                           OpStat ''/srv/files/report (1).pdf'']\<rparr>)
   \<and> os_Create ''/srv/files/report (1).pdf''
        (exWorld\<lparr>oplog := [OpStat ''/srv/files/report.pdf'',
                            OpStat ''/srv/files/report (1).pdf'']\<rparr>)
      = (Inr (),
         \<lparr>entries = [(''/srv'', Dir), (''/srv/files'', Dir),
                     (''/srv/files/report.pdf'', File ''old''),
                     (''/srv/files/report (1).pdf'', File [])],
          denied = [],
          oplog = [OpStat ''/srv/files/report.pdf'', OpStat ''/srv/files/report (1).pdf'',
                   OpCreate ''/srv/files/report (1).pdf'']\<rparr>)
   \<and> readErr exBroken = Some (ErrorString ''unexpected EOF'')
   \<and> fst (upload exConfig ''/srv/files/'' exBroken exWorld)
       = Return (Some (ErrorString ''unexpected EOF''))
   \<and> lookup (snd (upload exConfig ''/srv/files/'' exBroken exWorld))
        ''/srv/files/report (1).pdf'' = None
   \<and> fst (upload exKeep ''/srv/files/'' exBroken exWorld)
       = Return (Some (ErrorString ''unexpected EOF''))
   \<and> lookup (snd (upload exKeep ''/srv/files/'' exBroken exWorld))
        ''/srv/files/report (1).pdf'' = Some (File ''ne'')"
proof -
  have h1: "nextFree (Join [''/srv/files/'', FileName exBroken]) (Ext (FileName exBroken)) 0
              exWorld
     = (Return (Inr ''/srv/files/report (1).pdf''),
        exWorld\<lparr>oplog := [OpStat ''/srv/files/report.pdf'',
                           OpStat ''/srv/files/report (1).pdf'']\<rparr>)"
    by code_simp
  have h2: "os_Create ''/srv/files/report (1).pdf''
        (exWorld\<lparr>oplog := [OpStat ''/srv/files/report.pdf'',
                            OpStat ''/srv/files/report (1).pdf'']\<rparr>)
      = (Inr (),
         \<lparr>entries = [(''/srv'', Dir), (''/srv/files'', Dir),
                     (''/srv/files/report.pdf'', File ''old''),
                     (''/srv/files/report (1).pdf'', File [])],
          denied = [],
          oplog = [OpStat ''/srv/files/report.pdf'', OpStat ''/srv/files/report (1).pdf'',
                   OpCreate ''/srv/files/report (1).pdf'']\<rparr>)"
    by code_simp
  have h3: "readErr exBroken = Some (ErrorString ''unexpected EOF'')"
    by (simp add: exBroken_def)
  have c: "content exBroken = ''ne''" by (simp add: exBroken_def)
  have k: "\<not> DontRemoveOnError exConfig" "DontRemoveOnError exKeep"
    by (simp_all add: exConfig_def exKeep_def)
  show ?thesis
    using h1 h2 h3 c k
      upload_copy_failure [OF h1 h2 h3, of exConfig]
      upload_copy_failure [OF h1 h2 h3, of exKeep]
    by simp
qed

section \<open>Properties of the handlers\<close>

text \<open>
  C7. For a request whose path validates to a directory and whose body is a multipart
  stream, the handler uploads the first part whose form name is myFile, whatever the
  other parts are: it answers 200 with an empty body when that upload succeeds (and 400
  with the upload's error when it fails). It answers 400 with the body
  \<^verbatim>\<open>unknown payload\<close> exactly when no part of the stream has the form name myFile.
\<close>

theorem handleUpload_myFile:
  assumes vp: "validatePath (BasePath config) (queryPath r) w = (Inr path, w1)"
    and dir: "HasSuffix path ''/''"
    and mp: "MultipartReader r = Inr mp"
  shows "(\<forall>pre part post.
            parts mp = pre @ part # post \<and> (\<forall>p\<in>set pre. FormName p \<noteq> ''myFile'') \<and>
            FormName part = ''myFile'' \<longrightarrow>
            (case upload config path part w1 of
               (Return None, w2) \<Rightarrow>
                 \<exists>rw. handleUpload config r w = (Return rw, w2) \<and>
                      finalStatus rw = 200 \<and> body rw = []
             | (Return (Some err), w2) \<Rightarrow>
                 \<exists>rw. handleUpload config r w = (Return rw, w2) \<and>
                      finalStatus rw = 400 \<and> body rw = ''upload failed: '' @ errorText err
             | (Panic m, w2) \<Rightarrow> handleUpload config r w = (Panic m, w2)))
       \<and> ((\<exists>rw w2. handleUpload config r w = (Return rw, w2) \<and>
                   finalStatus rw = 400 \<and> body rw = ''unknown payload'')
            \<longleftrightarrow> (\<forall>p\<in>set (parts mp). FormName p \<noteq> ''myFile''))"
proof -
  have hu: "handleUpload config r w = scanParts config path (parts mp) w1"
    using vp dir mp by (simp add: handleUpload_def)
  have A: "case upload config path part w1 of
               (Return None, w2) \<Rightarrow>
                 \<exists>rw. handleUpload config r w = (Return rw, w2) \<and>
                      finalStatus rw = 200 \<and> body rw = []
             | (Return (Some err), w2) \<Rightarrow>
                 \<exists>rw. handleUpload config r w = (Return rw, w2) \<and>
                      finalStatus rw = 400 \<and> body rw = ''upload failed: '' @ errorText err
             | (Panic m, w2) \<Rightarrow> handleUpload config r w = (Panic m, w2)"
    if "parts mp = pre @ part # post" "\<forall>p\<in>set pre. FormName p \<noteq> ''myFile''"
       "FormName part = ''myFile''" for pre part post
    using that
    by (simp add: hu scanParts_first responseError_fields rw0_fields StatusBadRequest_def
             split: prod.splits outcome.splits option.splits)
  have B1: "\<exists>rw w2. handleUpload config r w = (Return rw, w2) \<and>
                   finalStatus rw = 400 \<and> body rw = ''unknown payload''"
    if "\<forall>p\<in>set (parts mp). FormName p \<noteq> ''myFile''"
    using that by (simp add: hu scanParts_none responseError_fields StatusBadRequest_def)
  have B2: "\<not> (\<exists>rw w2. handleUpload config r w = (Return rw, w2) \<and>
                   finalStatus rw = 400 \<and> body rw = ''unknown payload'')"
    if "\<exists>p\<in>set (parts mp). FormName p = ''myFile''"
  proof -
    from split_first [OF that] obtain pre x post where
      sp: "parts mp = pre @ x # post" "\<forall>p\<in>set pre. FormName p \<noteq> ''myFile''"
          "FormName x = ''myFile''"
      by blast
    show ?thesis
      by (auto simp add: hu sp(1) scanParts_first [OF sp(2,3)] responseError_fields rw0_fields
            split: prod.splits outcome.splits option.splits)
  qed
  show ?thesis
  proof (intro conjI allI impI)
    fix pre part post
    assume h: "parts mp = pre @ part # post \<and> (\<forall>p\<in>set pre. FormName p \<noteq> ''myFile'') \<and>
            FormName part = ''myFile''"
    show "case upload config path part w1 of
               (Return None, w2) \<Rightarrow>
                 \<exists>rw. handleUpload config r w = (Return rw, w2) \<and>
                      finalStatus rw = 200 \<and> body rw = []
             | (Return (Some err), w2) \<Rightarrow>
                 \<exists>rw. handleUpload config r w = (Return rw, w2) \<and>
                      finalStatus rw = 400 \<and> body rw = ''upload failed: '' @ errorText err
             | (Panic m, w2) \<Rightarrow> handleUpload config r w = (Panic m, w2)"
      by (rule A [of pre part post]) (use h in simp_all)
  next
    show "(\<exists>rw w2. handleUpload config r w = (Return rw, w2) \<and>
                   finalStatus rw = 400 \<and> body rw = ''unknown payload'')
            \<longleftrightarrow> (\<forall>p\<in>set (parts mp). FormName p \<noteq> ''myFile'')"
      using B1 B2 by blast
  qed
qed

theorem handleUpload_myFile_witness:
  "validatePath (BasePath exConfig) (queryPath exRequest) exWorld
     = (Inr ''/srv/files/'', exWorld\<lparr>oplog := [OpStat ''/srv/files'']\<rparr>)
   \<and> HasSuffix ''/srv/files/'' ''/''
   \<and> MultipartReader exRequest = Inr \<lparr>parts = [exOther, exPart, exBroken], ending = None\<rparr>
   \<and> (\<exists>rw. fst (handleUpload exConfig exRequest exWorld) = Return rw \<and>
            finalStatus rw = 200 \<and> body rw = [])
   \<and> \<not> (\<exists>rw w2. handleUpload exConfig exRequest exWorld = (Return rw, w2) \<and>
                 finalStatus rw = 400 \<and> body rw = ''unknown payload'')"
proof -
  have h1: "validatePath (BasePath exConfig) (queryPath exRequest) exWorld
     = (Inr ''/srv/files/'', exWorld\<lparr>oplog := [OpStat ''/srv/files'']\<rparr>)"
    by code_simp
  have h2: "HasSuffix ''/srv/files/'' ''/''" by (simp add: HasSuffix_def)
  have h3: "MultipartReader exRequest
              = Inr \<lparr>parts = [exOther, exPart, exBroken], ending = None\<rparr>"
    by (simp add: exRequest_def)
  have up: "fst (upload exConfig ''/srv/files/'' exPart
                  (exWorld\<lparr>oplog := [OpStat ''/srv/files'']\<rparr>)) = Return None"
    by code_simp
  have sp: "parts \<lparr>parts = [exOther, exPart, exBroken], ending = None\<rparr>
              = [exOther] @ exPart # [exBroken]
            \<and> (\<forall>p\<in>set [exOther]. FormName p \<noteq> ''myFile'') \<and> FormName exPart = ''myFile''"
    by (simp add: exOther_def exPart_def)
  note main = handleUpload_myFile [OF h1 h2 h3]
  have first:
    "case upload exConfig ''/srv/files/'' exPart (exWorld\<lparr>oplog := [OpStat ''/srv/files'']\<rparr>) of
       (Return None, w2) \<Rightarrow>
         \<exists>rw. handleUpload exConfig exRequest exWorld = (Return rw, w2) \<and>
              finalStatus rw = 200 \<and> body rw = []
     | (Return (Some err), w2) \<Rightarrow>
         \<exists>rw. handleUpload exConfig exRequest exWorld = (Return rw, w2) \<and>
              finalStatus rw = 400 \<and> body rw = ''upload failed: '' @ errorText err
     | (Panic m, w2) \<Rightarrow> handleUpload exConfig exRequest exWorld = (Panic m, w2)"
    by (rule conjunct1 [OF main, THEN spec, THEN spec, THEN spec, THEN mp, OF sp])
  obtain x w2 where u: "upload exConfig ''/srv/files/'' exPart
                          (exWorld\<lparr>oplog := [OpStat ''/srv/files'']\<rparr>) = (x, w2)"
    by (cases "upload exConfig ''/srv/files/'' exPart
                 (exWorld\<lparr>oplog := [OpStat ''/srv/files'']\<rparr>)")
  with up have x: "x = Return None" by simp
  from first have ok: "\<exists>rw. fst (handleUpload exConfig exRequest exWorld) = Return rw \<and>
            finalStatus rw = 200 \<and> body rw = []"
    by (auto simp: u x)
  have "\<not> (\<forall>p\<in>set (parts \<lparr>parts = [exOther, exPart, exBroken], ending = None\<rparr>).
             FormName p \<noteq> ''myFile'')"
    by (simp add: exPart_def)
  with main have no: "\<not> (\<exists>rw w2. handleUpload exConfig exRequest exWorld = (Return rw, w2) \<and>
                 finalStatus rw = 400 \<and> body rw = ''unknown payload'')"
    by blast
  show ?thesis using h1 h2 h3 ok no by blast
qed

text \<open>
  C8. With directory listing disabled, the list handler answers 200 with the body
  \<^verbatim>\<open>[]\<close> for every request and every file system, leaves the file system as it is
  and performs no operation on it.
\<close>

theorem listing_disabled_no_access:
  assumes "DisableDirectoryListing config"
  shows "finalStatus (fst (handleList config r w)) = 200 \<and>
         body (fst (handleList config r w)) = ''[]'' \<and>
         snd (handleList config r w) = w \<and>
         newOps w (snd (handleList config r w)) = []"
  using assms
  by (simp add: handleList_def finalStatus_def Write_def WriteHeader_def rw0_def
        StatusOK_def newOps_def)

theorem listing_disabled_no_access_witness:
  "DisableDirectoryListing exKeep \<and>
   finalStatus (fst (handleList exKeep (exRequest\<lparr>queryPath := ''/anything''\<rparr>) exWorld)) = 200 \<and>
   body (fst (handleList exKeep (exRequest\<lparr>queryPath := ''/anything''\<rparr>) exWorld)) = ''[]'' \<and>
   snd (handleList exKeep (exRequest\<lparr>queryPath := ''/anything''\<rparr>) exWorld) = exWorld \<and>
   newOps exWorld (snd (handleList exKeep (exRequest\<lparr>queryPath := ''/anything''\<rparr>) exWorld)) = []"
proof -
  have h: "DisableDirectoryListing exKeep" by (simp add: exKeep_def)
  show ?thesis
    using h listing_disabled_no_access [OF h, of "exRequest\<lparr>queryPath := ''/anything''\<rparr>" exWorld]
    by (simp add: newOps_def)
qed

section \<open>The collision loop\<close>

text \<open>
  C10. In the loop of upload, an entry of any kind at the candidate name, a directory as
  well as a file, is a collision: the loop goes on with the counter advanced and the next
  suffix. upload calls \<^verbatim>\<open>os.Create\<close> only at a name for which stat reported that nothing
  exists, so never at a name where a directory is.
\<close>

theorem upload_create_only_free:
  "(\<forall>n stem. statResult w f = Inr n \<longrightarrow>
       sliceTo f (int (length f) - int (length e)) = Some stem \<longrightarrow>
       nextFree f e i w =
         nextFree (stem @ '' ('' @ Itoa (Suc i) @ '')'' @ e) e (Suc i) (logged (OpStat f) w))
   \<and> (\<forall>g. OpCreate g \<in> set (newOps w (snd (upload config path part w))) \<longrightarrow>
          statResult w g = Inl (PathError ''stat'' g ENOENT) \<and>
          statResult w g \<noteq> Inr Dir \<and>
          (g \<noteq> [] \<longrightarrow> lookup w g = None))"
proof (intro conjI allI impI)
  fix n stem
  assume "statResult w f = Inr n" "sliceTo f (int (length f) - int (length e)) = Some stem"
  then show "nextFree f e i w =
         nextFree (stem @ '' ('' @ Itoa (Suc i) @ '')'' @ e) e (Suc i) (logged (OpStat f) w)"
    by (simp add: nextFree_unfold [of f e i w])
next
  fix g
  assume c: "OpCreate g \<in> set (newOps w (snd (upload config path part w)))"
  from upload_creates [OF c] obtain w1 where
    "nextFree (Join [path, FileName part]) (Ext (FileName part)) 0 w = (Return (Inr g), w1)" ..
  then have free: "statResult w g = Inl (PathError ''stat'' g ENOENT)" by (rule nextFree_free)
  show "statResult w g = Inl (PathError ''stat'' g ENOENT)" by (rule free)
  show "statResult w g \<noteq> Inr Dir" using free by simp
  assume "g \<noteq> []"
  then show "lookup w g = None" using statResult_ENOENT [OF free] by simp
qed

theorem upload_create_only_free_witness:
  "statResult exTaken ''/srv/files/report.pdf'' = Inr Dir
   \<and> sliceTo ''/srv/files/report.pdf''
        (int (length ''/srv/files/report.pdf'') - int (length ''.pdf'')) = Some ''/srv/files/report''
   \<and> nextFree ''/srv/files/report.pdf'' ''.pdf'' 0 exTaken
       = nextFree (''/srv/files/report'' @ '' ('' @ Itoa (Suc 0) @ '')'' @ ''.pdf'') ''.pdf'' (Suc 0)
           (logged (OpStat ''/srv/files/report.pdf'') exTaken)
   \<and> OpCreate ''/srv/files/report (1) (2).pdf''
        \<in> set (newOps exTaken (snd (upload exConfig ''/srv/files/'' exPart exTaken)))
   \<and> statResult exTaken ''/srv/files/report (1) (2).pdf''
        = Inl (PathError ''stat'' ''/srv/files/report (1) (2).pdf'' ENOENT)
   \<and> lookup exTaken ''/srv/files/report (1) (2).pdf'' = None"
proof -
  have h1: "statResult exTaken ''/srv/files/report.pdf'' = Inr Dir" by code_simp
  have h2: "sliceTo ''/srv/files/report.pdf''
        (int (length ''/srv/files/report.pdf'') - int (length ''.pdf'')) = Some ''/srv/files/report''"
    by code_simp
  have h3: "OpCreate ''/srv/files/report (1) (2).pdf''
        \<in> set (newOps exTaken (snd (upload exConfig ''/srv/files/'' exPart exTaken)))"
    by code_simp
  note main = upload_create_only_free
    [of exTaken "''/srv/files/report.pdf''" "''.pdf''" 0 exConfig "''/srv/files/''" exPart]
  have a: "nextFree ''/srv/files/report.pdf'' ''.pdf'' 0 exTaken
       = nextFree (''/srv/files/report'' @ '' ('' @ Itoa (Suc 0) @ '')'' @ ''.pdf'') ''.pdf'' (Suc 0)
           (logged (OpStat ''/srv/files/report.pdf'') exTaken)"
    by (rule conjunct1 [OF main, THEN spec, THEN spec, THEN mp, THEN mp, OF h1 h2])
  have b: "statResult exTaken ''/srv/files/report (1) (2).pdf''
        = Inl (PathError ''stat'' ''/srv/files/report (1) (2).pdf'' ENOENT) \<and>
      statResult exTaken ''/srv/files/report (1) (2).pdf'' \<noteq> Inr Dir \<and>
      (''/srv/files/report (1) (2).pdf'' \<noteq> [] \<longrightarrow>
         lookup exTaken ''/srv/files/report (1) (2).pdf'' = None)"
    by (rule conjunct2 [OF main, THEN spec, THEN mp, OF h3])
  show ?thesis using h1 h2 h3 a b by simp
qed

text \<open>
  C3. Uploading report.pdf into a directory that holds report.pdf creates
  \<^verbatim>\<open>report (1).pdf\<close>. Uploading report.pdf again does not create \<^verbatim>\<open>report (2).pdf\<close>:
  each round rewrites the previous candidate, so the second round starts from
  \<^verbatim>\<open>report (1).pdf\<close> and the file created is \<^verbatim>\<open>report (1) (2).pdf\<close>.
\<close>

theorem upload_twice_names:
  "lookup (snd (upload exConfig ''/srv/files/'' exPart exWorld)) ''/srv/files/report (1).pdf''
     = Some (File ''new'')
   \<and> lookup (snd (upload exConfig ''/srv/files/'' exPart
                (snd (upload exConfig ''/srv/files/'' exPart exWorld))))
        ''/srv/files/report (1) (2).pdf'' = Some (File ''new'')
   \<and> lookup (snd (upload exConfig ''/srv/files/'' exPart
                (snd (upload exConfig ''/srv/files/'' exPart exWorld))))
        ''/srv/files/report (2).pdf'' = None
   \<and> map fst (entries (snd (upload exConfig ''/srv/files/'' exPart
                (snd (upload exConfig ''/srv/files/'' exPart exWorld)))))
      = [''/srv'', ''/srv/files'', ''/srv/files/report.pdf'', ''/srv/files/report (1).pdf'',
         ''/srv/files/report (1) (2).pdf'']"
  by code_simp

section \<open>The listing\<close>

text \<open>
  C4, as stated: for a directory with the entries .git, a.txt and sub (a directory) the body
  would be the JSON array of the quoted names. The body the handler writes holds the names
  unquoted.
\<close>

theorem listing_json_counterexample:
  "fst (os_ReadDir ''/srv/files/'' exListing)
     = Inr [DirEntry ''.git'' True, DirEntry ''a.txt'' False, DirEntry ''sub'' True]
   \<and> body (fst (handleList exConfig \<lparr>queryPath = [], MultipartReader = Inl (ErrorString [])\<rparr> exListing))
     = ''[a.txt,sub/]''
   \<and> finalStatus (fst (handleList exConfig \<lparr>queryPath = [], MultipartReader = Inl (ErrorString [])\<rparr> exListing)) = 200
   \<and> body (fst (handleList exConfig \<lparr>queryPath = [], MultipartReader = Inl (ErrorString [])\<rparr> exListing))
     \<noteq> ''['' @ [CHR 0x22] @ ''a.txt'' @ [CHR 0x22] @ '','' @ [CHR 0x22] @ ''sub/'' @ [CHR 0x22] @ '']''
   \<and> body (fst (handleList exConfig \<lparr>queryPath = [], MultipartReader = Inl (ErrorString [])\<rparr> exListing))
     \<noteq> ''['' @ [CHR 0x22] @ ''sub/'' @ [CHR 0x22] @ '','' @ [CHR 0x22] @ ''a.txt'' @ [CHR 0x22] @ '']''"
  by code_simp

text \<open>
  C4, amended. For a directory whose entries are .git, a.txt and sub (a directory), in any
  order, the handler answers 200 and the body is the bracketed, comma-separated list of
  a.txt and sub/ in the order of the entries, the names unquoted: the hidden entry is left
  out and the directory name ends with a separator.
\<close>

theorem listing_three_entries:
  assumes en: "\<not> DisableDirectoryListing config"
    and vp: "validatePath (BasePath config) (queryPath r) w = (Inr path, w1)"
    and dir: "HasSuffix path ''/''"
    and rd: "os_ReadDir path w1 = (Inr fsys, w2)"
    and ents: "mset fsys = {#DirEntry ''.git'' hidden, DirEntry ''a.txt'' False, DirEntry ''sub'' True#}"
  shows "finalStatus (fst (handleList config r w)) = 200 \<and>
         (body (fst (handleList config r w)) = ''[a.txt,sub/]'' \<or>
          body (fst (handleList config r w)) = ''[sub/,a.txt]'')"
proof -
  have hl: "handleList config r w =
      (Write (''['' @ StringsJoin (listNames fsys) '','' @ '']'') (WriteHeader StatusOK rw0), w2)"
    using en vp dir rd by (simp add: handleList_def)
  have "mset (listNames fsys) = image_mset shown (filter_mset visible (mset fsys))"
    by (simp add: listNames_filter_map)
  also have "\<dots> = {#''a.txt'', ''sub/''#}"
    by (simp add: ents visible_def shown_def HasPrefix_def)
  finally have "listNames fsys = [''a.txt'', ''sub/''] \<or> listNames fsys = [''sub/'', ''a.txt'']"
    by (rule mset_two)
  then show ?thesis
    by (auto simp: hl Write_def WriteHeader_def rw0_def finalStatus_def StatusOK_def)
qed

theorem listing_three_entries_witness:
  "\<not> DisableDirectoryListing exConfig
   \<and> validatePath (BasePath exConfig) [] exListing
       = (Inr ''/srv/files/'', exListing\<lparr>oplog := [OpStat ''/srv/files'']\<rparr>)
   \<and> HasSuffix ''/srv/files/'' ''/''
   \<and> os_ReadDir ''/srv/files/'' (exListing\<lparr>oplog := [OpStat ''/srv/files'']\<rparr>)
       = (Inr [DirEntry ''.git'' True, DirEntry ''a.txt'' False, DirEntry ''sub'' True],
          exListing\<lparr>oplog := [OpStat ''/srv/files'', OpReadDir ''/srv/files/'']\<rparr>)
   \<and> mset [DirEntry ''.git'' True, DirEntry ''a.txt'' False, DirEntry ''sub'' True]
       = {#DirEntry ''.git'' True, DirEntry ''a.txt'' False, DirEntry ''sub'' True#}
   \<and> finalStatus (fst (handleList exConfig \<lparr>queryPath = [], MultipartReader = Inl (ErrorString [])\<rparr> exListing)) = 200
   \<and> body (fst (handleList exConfig \<lparr>queryPath = [], MultipartReader = Inl (ErrorString [])\<rparr> exListing))
       = ''[a.txt,sub/]''"
proof -
  let ?r = "\<lparr>queryPath = [], MultipartReader = Inl (ErrorString [])\<rparr>"
  have h1: "\<not> DisableDirectoryListing exConfig" by (simp add: exConfig_def)
  have h2: "validatePath (BasePath exConfig) (queryPath ?r) exListing
       = (Inr ''/srv/files/'', exListing\<lparr>oplog := [OpStat ''/srv/files'']\<rparr>)"
    by code_simp
  have h3: "HasSuffix ''/srv/files/'' ''/''" by (simp add: HasSuffix_def)
  have h4: "os_ReadDir ''/srv/files/'' (exListing\<lparr>oplog := [OpStat ''/srv/files'']\<rparr>)
       = (Inr [DirEntry ''.git'' True, DirEntry ''a.txt'' False, DirEntry ''sub'' True],
          exListing\<lparr>oplog := [OpStat ''/srv/files'', OpReadDir ''/srv/files/'']\<rparr>)"
    by code_simp
  have h5: "mset [DirEntry ''.git'' True, DirEntry ''a.txt'' False, DirEntry ''sub'' True]
       = {#DirEntry ''.git'' True, DirEntry ''a.txt'' False, DirEntry ''sub'' True#}"
    by simp
  have b: "body (fst (handleList exConfig ?r exListing)) \<noteq> ''[sub/,a.txt]''"
    by code_simp
  from listing_three_entries [OF h1 h2 h3 h4 h5] b h1 h2 h3 h4 h5
  show ?thesis by simp
qed

section \<open>Path validation\<close>

text \<open>
  C2, as stated: every path with a segment \<^verbatim>\<open>.\<close> or \<^verbatim>\<open>..\<close> would be rejected. The path is
  cleaned before its segments are checked, so \<^verbatim>\<open>a/../report.pdf\<close> and
  \<^verbatim>\<open>./report.pdf\<close> are accepted.
\<close>

theorem validatePath_dot_counterexample:
  "fst (validatePath ''/srv/files'' ''a/../report.pdf'' exWorld) = Inr ''/srv/files/report.pdf''
   \<and> fst (validatePath ''/srv/files'' ''./report.pdf'' exWorld) = Inr ''/srv/files/report.pdf''"
  by code_simp

text \<open>
  C2, amended. For every base directory, file system and path: when the cleaned path is not
  \<^verbatim>\<open>.\<close> and has a segment that starts with a dot, validatePath fails with the error
  \<^verbatim>\<open>invalid path:\<close> followed by the first such segment, and does not touch the file system.
\<close>

theorem validatePath_rejects_dot_segment:
  assumes nd: "Clean p \<noteq> ''.''"
    and seg: "\<exists>s\<in>set (Split (Clean p) CHR ''/''). HasPrefix s ''.''"
  shows "\<exists>pre s post.
           Split (Clean p) CHR ''/'' = pre @ s # post \<and>
           (\<forall>t\<in>set pre. \<not> HasPrefix t ''.'') \<and> HasPrefix s ''.'' \<and>
           validatePath base p w = (Inl (ErrorString (''invalid path: '' @ s)), w)"
proof -
  from split_first [OF seg] obtain pre s post where
    sp: "Split (Clean p) CHR ''/'' = pre @ s # post"
        "\<forall>t\<in>set pre. \<not> HasPrefix t ''.''" "HasPrefix s ''.''"
    by blast
  have ne: "Clean p \<noteq> []"
  proof
    assume "Clean p = []"
    with seg show False by (simp add: HasPrefix_def)
  qed
  have "find (\<lambda>s. HasPrefix s ''.'') (Split (Clean p) CHR ''/'') = Some s"
    unfolding sp(1) by (rule find_first [OF sp(2,3)])
  then have "validatePath base p w = (Inl (ErrorString (''invalid path: '' @ s)), w)"
    using nd ne by (simp add: validatePath_def Let_def)
  with sp show ?thesis by blast
qed

theorem validatePath_rejects_dot_segment_witness:
  "Clean ''docs/../../etc'' \<noteq> ''.''
   \<and> (\<exists>s. s \<in> set (Split (Clean ''docs/../../etc'') CHR ''/'') \<and> HasPrefix s ''.'')
   \<and> validatePath ''/srv/files'' ''docs/../../etc'' exWorld
       = (Inl (ErrorString ''invalid path: ..''), exWorld)"
proof -
  have cl: "Clean ''docs/../../etc'' = ''../etc''" by code_simp
  have h1: "Clean ''docs/../../etc'' \<noteq> ''.''" by (simp add: cl)
  have sp: "Split (Clean ''docs/../../etc'') CHR ''/'' = [''..'', ''etc'']"
    by (simp add: cl)
  have h2: "\<exists>s\<in>set (Split (Clean ''docs/../../etc'') CHR ''/''). HasPrefix s ''.''"
    by (simp add: sp HasPrefix_def)
  from validatePath_rejects_dot_segment [OF h1 h2, of "''/srv/files''" exWorld]
  obtain pre s post where
    r: "Split (Clean ''docs/../../etc'') CHR ''/'' = pre @ s # post"
       "\<forall>t\<in>set pre. \<not> HasPrefix t ''.''" "HasPrefix s ''.''"
       "validatePath ''/srv/files'' ''docs/../../etc'' exWorld
          = (Inl (ErrorString (''invalid path: '' @ s)), exWorld)"
    by blast
  have "pre = []"
  proof (cases pre)
    case Nil then show ?thesis .
  next
    case (Cons a list)
    with r(1) sp have "a = ''..''" by simp
    with r(2) Cons show ?thesis by (simp add: HasPrefix_def)
  qed
  with r(1) sp have "s = ''..''" by simp
  with r(4) h1 h2 show ?thesis by auto
qed

text \<open>
  C1. With an empty base path, which is the value of \<^verbatim>\<open>config.BasePath\<close> in this program,
  a rooted request path is returned as it is: \<^verbatim>\<open>/etc\<close> validates to \<^verbatim>\<open>/etc/\<close>, which is
  not inside the base (the directory the server runs in), and the handler lists or serves
  what is there.
\<close>

theorem validatePath_escapes_empty_base:
  "fst (validatePath (BasePath config0) ''/etc'' exRoot) = Inr ''/etc/''
   \<and> \<not> inside (BasePath config0) ''/etc/''
   \<and> body (fst (handleList config0 \<lparr>queryPath = ''/etc'', MultipartReader = Inl (ErrorString [])\<rparr> exRoot))
       = ''[passwd]''
   \<and> served (fst (handleList config0
        \<lparr>queryPath = ''/etc/passwd'', MultipartReader = Inl (ErrorString [])\<rparr> exRoot))
       = Some ''/etc/passwd''"
  by code_simp


text \<open>
  With a base path that is not empty, or a request path that is not rooted, every path
  validatePath returns is inside the base.
\<close>

theorem validatePath_confined:
  assumes vp: "validatePath base p w = (Inr r, w1)"
    and dom: "base \<noteq> [] \<or> \<not> isRooted p"
  shows "inside base r"
proof -
  let ?c = "Clean p"
  from validatePath_Inr [OF vp] have
    chk: "?c = ''.'' \<or> (\<forall>s\<in>set (Split ?c CHR ''/''). \<not> HasPrefix s ''.'')"
    and res: "r = Join [base, ?c] \<or> r = Join [base, ?c] @ ''/''"
    by auto
  have cne: "?c \<noteq> []" by simp
  show ?thesis
  proof (cases "base = []")
    case False
    let ?x = "base @ ''/'' @ ?c"
    have J: "Join [base, ?c] = Clean ?x" using False by (simp add: Join_two)
    have xne: "?x \<noteq> []" by simp
    have er: "elements r = elements ?x" "isRooted r = isRooted ?x"
      using elements_result [OF xne, of r] res J by auto
    have rx: "isRooted ?x = isRooted base" using False by (simp add: isRooted_def)
    from chk have "\<exists>ys. elements ?x = elements base @ ys \<and> ''..'' \<notin> set ys"
    proof
      assume "?c = ''.''"
      then show ?thesis using elements_join_dot [OF False] by simp
    next
      assume pl: "\<forall>s\<in>set (Split ?c CHR ''/''). \<not> HasPrefix s ''.''"
      show ?thesis
        using elements_join_plain [OF False pl] plain_no_dotdot [OF pl] by blast
    qed
    then obtain ys where "elements r = elements base @ ys" "''..'' \<notin> set ys"
      using er(1) by auto
    moreover have "isRooted base = isRooted r" using er(2) rx by simp
    ultimately show ?thesis by (intro inside_extend)
  next
    case True
    with dom have nr: "\<not> isRooted p" by simp
    have J: "Join [base, ?c] = Clean ?c" using True cne by (simp add: Join_two)
    have er: "elements r = elements ?c" "isRooted r = isRooted ?c"
      using elements_result [OF cne, of r] res J by auto
    have rc: "\<not> isRooted ?c"
    proof (cases "p = []")
      case True then show ?thesis by (simp add: Clean_def isRooted_def)
    next
      case False then show ?thesis using elements_Clean(2) [OF False] nr by simp
    qed
    from chk have "''..'' \<notin> set (elements ?c)"
    proof
      assume d: "?c = ''.''"
      have "elements ''.'' = []" by code_simp
      then show ?thesis using d by simp
    next
      assume pl: "\<forall>s\<in>set (Split ?c CHR ''/''). \<not> HasPrefix s ''.''"
      show ?thesis using elements_plain [OF pl] plain_no_dotdot [OF pl] by simp
    qed
    moreover have "isRooted base = isRooted r" using er(2) rc True by (simp add: isRooted_def)
    moreover have "elements r = elements base @ elements ?c" using er(1) True by simp
    ultimately show ?thesis by (intro inside_extend)
  qed
qed

section \<open>Upload with an empty file name\<close>





end
